theory Spec2Isabelle
  imports Complex_Main "HOL-Library.Multiset"
begin

section \<open>Numbers, faults and vectors\<close>

text \<open>
  The renderer computes with JavaScript Numbers. They are modelled as exact reals, the
  arithmetic the specification states its laws over. Two outcomes of the source have no
  real value and are kept apart as faults:
  \<^item> \<open>TypeError\<close>: the source reads a property of \<open>undefined\<close> or \<open>null\<close> and throws;
  \<^item> \<open>NonFinite\<close>: the source divides by zero and goes on with \<open>NaN\<close> or an infinity.
\<close>

datatype fault = TypeError | NonFinite

text \<open>\<open>class Vector3D\<close>: the fields \<open>x\<close>, \<open>y\<close>, \<open>z\<close>.\<close>

record Vector3D =
  vx :: real
  vy :: real
  vz :: real

definition subtract :: "Vector3D \<Rightarrow> Vector3D \<Rightarrow> Vector3D" where
  "subtract a b = \<lparr>vx = vx a - vx b, vy = vy a - vy b, vz = vz a - vz b\<rparr>"

definition cross :: "Vector3D \<Rightarrow> Vector3D \<Rightarrow> Vector3D" where
  "cross a b =
     \<lparr>vx = vy a * vz b - vz a * vy b,
      vy = vz a * vx b - vx a * vz b,
      vz = vx a * vy b - vy a * vx b\<rparr>"

definition dot :: "Vector3D \<Rightarrow> Vector3D \<Rightarrow> real" where
  "dot a b = vx a * vx b + vy a * vy b + vz a * vz b"

definition magnitude :: "Vector3D \<Rightarrow> real" where
  "magnitude v = sqrt ((vx v)\<^sup>2 + (vy v)\<^sup>2 + (vz v)\<^sup>2)"

text \<open>\<open>normalize\<close> divides by the magnitude; on the zero vector the source yields \<open>NaN\<close>
  components.\<close>

definition normalize :: "Vector3D \<Rightarrow> fault + Vector3D" where
  "normalize v =
     (let mag = magnitude v
      in if mag = 0 then Inl NonFinite
         else Inr \<lparr>vx = vx v / mag, vy = vy v / mag, vz = vz v / mag\<rparr>)"

section \<open>Transformation\<close>

definition rotateXZ :: "Vector3D \<Rightarrow> real \<Rightarrow> Vector3D" where
  "rotateXZ v angle =
     (let c = cos angle; s = sin angle
      in \<lparr>vx = vx v * c - vz v * s, vy = vy v, vz = vx v * s + vz v * c\<rparr>)"

definition translateZ :: "Vector3D \<Rightarrow> real \<Rightarrow> Vector3D" where
  "translateZ v dz = \<lparr>vx = vx v, vy = vy v, vz = vz v + dz\<rparr>"

section \<open>Camera\<close>

record Camera =
  canvasWidth :: real
  canvasHeight :: real
  distance :: real

definition new_Camera :: "real \<Rightarrow> real \<Rightarrow> Camera" where
  "new_Camera w h = \<lparr>canvasWidth = w, canvasHeight = h, distance = 1\<rparr>"

text \<open>\<open>project\<close> divides by \<open>v.z\<close>; at \<open>v.z = 0\<close> the source yields infinities or \<open>NaN\<close>.\<close>

definition project :: "Camera \<Rightarrow> Vector3D \<Rightarrow> fault + Vector3D" where
  "project cam v =
     (if vz v = 0 then Inl NonFinite
      else Inr \<lparr>vx = vx v / vz v, vy = vy v / vz v, vz = vz v\<rparr>)"

text \<open>The object \<open>{x, y}\<close> that \<open>toScreenCoords\<close> returns.\<close>

record ScreenPoint =
  sx :: real
  sy :: real

definition toScreenCoords :: "Camera \<Rightarrow> Vector3D \<Rightarrow> ScreenPoint" where
  "toScreenCoords cam v =
     \<lparr>sx = (vx v + 1) / 2 * canvasWidth cam,
      sy = (1 - (vy v + 1) / 2) * canvasHeight cam\<rparr>"

section \<open>Model3D\<close>

text \<open>An array read \<open>xs[i]\<close>: \<open>undefined\<close> (here \<open>None\<close>) outside \<open>0 .. length - 1\<close>.\<close>

definition js_index :: "'a list \<Rightarrow> int \<Rightarrow> 'a option" where
  "js_index xs i = (if 0 \<le> i \<and> i < int (length xs) then Some (xs ! nat i) else None)"

record Model3D =
  vertices :: "Vector3D list"
  faces :: "int list list"
  rotation :: real
  position :: Vector3D

definition new_Model3D :: "Vector3D list \<Rightarrow> int list list \<Rightarrow> real \<Rightarrow> Model3D" where
  "new_Model3D vs fs cameraDistance =
     \<lparr>vertices = vs, faces = fs, rotation = 0,
      position = \<lparr>vx = 0, vy = 0, vz = cameraDistance\<rparr>\<rparr>"

text \<open>
  \<open>getFaceNormal\<close> returns \<open>null\<close> (\<open>Inr None\<close>) on fewer than three indices. Otherwise it
  reads three vertices; \<open>Vector3D.subtract\<close> throws when one of them is \<open>undefined\<close>.
\<close>

definition getFaceNormal :: "Model3D \<Rightarrow> int list \<Rightarrow> fault + Vector3D option" where
  "getFaceNormal m faceIndices =
     (if length faceIndices < 3 then Inr None
      else
        (case (js_index (vertices m) (faceIndices ! 0),
               js_index (vertices m) (faceIndices ! 1),
               js_index (vertices m) (faceIndices ! 2)) of
           (Some v0, Some v1, Some v2) \<Rightarrow>
             (let edge1 = subtract v1 v0; edge2 = subtract v2 v0
              in Inr (Some (cross edge1 edge2)))
         | _ \<Rightarrow> Inl TypeError))"

definition isFaceVisible :: "Model3D \<Rightarrow> int list \<Rightarrow> fault + bool" where
  "isFaceVisible m faceIndices =
     (case getFaceNormal m faceIndices of
        Inl e \<Rightarrow> Inl e
      | Inr None \<Rightarrow> Inr True
      | Inr (Some normal) \<Rightarrow>
          (let rotatedNormal = rotateXZ normal (rotation m)
           in Inr (vz rotatedNormal < 0)))"

text \<open>The loop of \<open>getAverageDepth\<close>, with \<open>sumZ\<close> as the accumulator.\<close>

fun sumDepth :: "Model3D \<Rightarrow> int list \<Rightarrow> real \<Rightarrow> fault + real" where
  "sumDepth m [] sumZ = Inr sumZ"
| "sumDepth m (idx # rest) sumZ =
     (case js_index (vertices m) idx of
        None \<Rightarrow> Inl TypeError
      | Some v \<Rightarrow>
          (let rotated = rotateXZ v (rotation m);
               translated = translateZ rotated (vz (position m))
           in sumDepth m rest (sumZ + vz translated)))"

text \<open>On the empty face the source computes \<open>0 / 0\<close>, which is \<open>NaN\<close>.\<close>

definition getAverageDepth :: "Model3D \<Rightarrow> int list \<Rightarrow> fault + real" where
  "getAverageDepth m faceIndices =
     (case sumDepth m faceIndices 0 of
        Inl e \<Rightarrow> Inl e
      | Inr sumZ \<Rightarrow>
          if length faceIndices = 0 then Inl NonFinite
          else Inr (sumZ / real (length faceIndices)))"

definition transformVertex :: "Model3D \<Rightarrow> Vector3D \<Rightarrow> Vector3D" where
  "transformVertex m v =
     (let rotated = rotateXZ v (rotation m)
      in translateZ rotated (vz (position m)))"

section \<open>Renderer\<close>

text \<open>
  The canvas, its context and the colour strings are the drawing collaborator; the
  renderer keeps the camera, the wireframe flag and the light direction.
\<close>

record Renderer =
  camera :: Camera
  wireframeMode :: bool
  lightDirection :: Vector3D

definition new_Renderer :: "real \<Rightarrow> real \<Rightarrow> fault + Renderer" where
  "new_Renderer w h =
     (case normalize \<lparr>vx = 0.5, vy = 0.5, vz = - 0.5\<rparr> of
        Inl e \<Rightarrow> Inl e
      | Inr l \<Rightarrow> Inr \<lparr>camera = new_Camera w h, wireframeMode = False, lightDirection = l\<rparr>)"

text \<open>
  What reaches the canvas for one face: the outline and, when shaded, the green channel
  \<open>colorValue\<close> of the fill (the stroke uses \<open>colorValue * 0.7\<close>). A coordinate or a
  colour that is not finite in the source is carried as \<open>Inl NonFinite\<close>.
\<close>

datatype DrawCommand =
  Wireframe "(fault + ScreenPoint) list"
| Shaded "fault + int" "(fault + ScreenPoint) list"

text \<open>The callback of \<open>faceIndices.map\<close> in \<open>drawFace\<close>; it throws on an undefined vertex.\<close>

definition screenPoint :: "Renderer \<Rightarrow> Model3D \<Rightarrow> int \<Rightarrow> fault + ScreenPoint" where
  "screenPoint r m idx =
     (case js_index (vertices m) idx of
        None \<Rightarrow> Inl TypeError
      | Some v \<Rightarrow>
          (let transformed = transformVertex m v
           in case project (camera r) transformed of
                Inl e \<Rightarrow> Inl e
              | Inr projected \<Rightarrow> Inr (toScreenCoords (camera r) projected)))"

text \<open>\<open>drawWireframe\<close> reads \<open>screenPoints[0].x\<close>, which throws on the empty outline.\<close>

definition drawWireframe :: "(fault + ScreenPoint) list \<Rightarrow> fault + DrawCommand" where
  "drawWireframe screenPoints =
     (if screenPoints = [] then Inl TypeError else Inr (Wireframe screenPoints))"

text \<open>
  The shading of \<open>drawShadedFace\<close>, local by local. A \<open>null\<close> normal makes \<open>rotateXZ\<close>
  throw; a zero normal makes \<open>normalize\<close> yield \<open>NaN\<close>. After the colours are set the
  outline is traced from \<open>screenPoints[0].x\<close>, which throws on the empty outline.
\<close>

definition faceBrightness :: "Renderer \<Rightarrow> Model3D \<Rightarrow> int list \<Rightarrow> fault + real" where
  "faceBrightness r m faceIndices =
     (case getFaceNormal m faceIndices of
        Inl e \<Rightarrow> Inl e
      | Inr None \<Rightarrow> Inl TypeError
      | Inr (Some normal) \<Rightarrow>
          (let rotatedNormal = rotateXZ normal (rotation m)
           in case normalize rotatedNormal of
                Inl e \<Rightarrow> Inl e
              | Inr normalizedNormal \<Rightarrow>
                  Inr (max 0 (dot normalizedNormal (lightDirection r)))))"

definition minBrightness :: real where
  "minBrightness = 0.3"

definition finalBrightness :: "real \<Rightarrow> real" where
  "finalBrightness brightness = minBrightness + brightness * (1 - minBrightness)"

definition colorValue :: "real \<Rightarrow> int" where
  "colorValue brightness = \<lfloor>255 * finalBrightness brightness\<rfloor>"

definition drawShadedFace ::
  "Renderer \<Rightarrow> Model3D \<Rightarrow> int list \<Rightarrow> (fault + ScreenPoint) list \<Rightarrow> fault + DrawCommand" where
  "drawShadedFace r m faceIndices screenPoints =
     (case faceBrightness r m faceIndices of
        Inl TypeError \<Rightarrow> Inl TypeError
      | Inl NonFinite \<Rightarrow>
          if screenPoints = [] then Inl TypeError
          else Inr (Shaded (Inl NonFinite) screenPoints)
      | Inr brightness \<Rightarrow>
          if screenPoints = [] then Inl TypeError
          else Inr (Shaded (Inr (colorValue brightness)) screenPoints))"

definition drawFace :: "Renderer \<Rightarrow> Model3D \<Rightarrow> int list \<Rightarrow> fault + DrawCommand" where
  "drawFace r m faceIndices =
     (let screenPoints = map (screenPoint r m) faceIndices
      in if Inl TypeError \<in> set screenPoints then Inl TypeError
         else if wireframeMode r then drawWireframe screenPoints
         else drawShadedFace r m faceIndices screenPoints)"

section \<open>Application\<close>

record Application =
  model :: Model3D
  renderer :: Renderer

text \<open>
  One frame: the faces drawn, in order, each with what was drawn, and the exception that
  ended the frame early, if any.
\<close>

record Frame =
  drawn :: "(int list \<times> DrawCommand) list"
  thrown :: "fault option"

text \<open>
  \<open>this.model.faces.map(...)\<close>: every face paired with its average depth. A throw of
  \<open>getAverageDepth\<close> ends the frame; a \<open>NaN\<close> depth does not throw, so a later throw
  still wins over it.
\<close>

fun facesWithDepth :: "Model3D \<Rightarrow> int list list \<Rightarrow> fault + (int list \<times> real) list" where
  "facesWithDepth m [] = Inr []"
| "facesWithDepth m (face # rest) =
     (case getAverageDepth m face of
        Inl TypeError \<Rightarrow> Inl TypeError
      | Inl NonFinite \<Rightarrow>
          (case facesWithDepth m rest of Inl TypeError \<Rightarrow> Inl TypeError | _ \<Rightarrow> Inl NonFinite)
      | Inr depth \<Rightarrow>
          (case facesWithDepth m rest of
             Inl e \<Rightarrow> Inl e
           | Inr ps \<Rightarrow> Inr ((face, depth) # ps)))"

text \<open>
  \<open>facesWithDepth.sort((a, b) => b.depth - a.depth)\<close>: the host's sort is stable, and the
  comparator puts the larger depth first.
\<close>

definition sortByDepth :: "(int list \<times> real) list \<Rightarrow> (int list \<times> real) list" where
  "sortByDepth ps = sort_key (\<lambda>p. - snd p) ps"

text \<open>The test before \<open>continue\<close>: in wireframe mode \<open>isFaceVisible\<close> is not called.\<close>

definition culled :: "Renderer \<Rightarrow> Model3D \<Rightarrow> int list \<Rightarrow> fault + bool" where
  "culled r m face =
     (if \<not> wireframeMode r
      then (case isFaceVisible m face of Inl e \<Rightarrow> Inl e | Inr visible \<Rightarrow> Inr (\<not> visible))
      else Inr False)"

fun drawLoop :: "Renderer \<Rightarrow> Model3D \<Rightarrow> int list list \<Rightarrow> Frame" where
  "drawLoop r m [] = \<lparr>drawn = [], thrown = None\<rparr>"
| "drawLoop r m (face # rest) =
     (case culled r m face of
        Inl e \<Rightarrow> \<lparr>drawn = [], thrown = Some e\<rparr>
      | Inr True \<Rightarrow> drawLoop r m rest
      | Inr False \<Rightarrow>
          (case drawFace r m face of
             Inl e \<Rightarrow> \<lparr>drawn = [], thrown = Some e\<rparr>
           | Inr cmd \<Rightarrow>
               (let fr = drawLoop r m rest
                in \<lparr>drawn = (face, cmd) # drawn fr, thrown = thrown fr\<rparr>)))"

text \<open>
  \<open>render\<close>. With a \<open>NaN\<close> depth the comparator is inconsistent and the order of the
  host's sort is not determined; the model stops there with \<open>NonFinite\<close>.
\<close>

definition render :: "Application \<Rightarrow> Frame" where
  "render app =
     (case facesWithDepth (model app) (faces (model app)) of
        Inl e \<Rightarrow> \<lparr>drawn = [], thrown = Some e\<rparr>
      | Inr ps \<Rightarrow> drawLoop (renderer app) (model app) (map fst (sortByDepth ps)))"

definition update :: "Application \<Rightarrow> real \<Rightarrow> Application" where
  "update app dt = app\<lparr>model := (model app)\<lparr>rotation := rotation (model app) + pi * dt\<rparr>\<rparr>"

section \<open>Well-formed faces and example meshes\<close>

definition validIndices :: "Model3D \<Rightarrow> int list \<Rightarrow> bool" where
  "validIndices m f = (\<forall>i \<in> set f. 0 \<le> i \<and> i < int (length (vertices m)))"

text \<open>The mesh invariant: every face has at least three indices, all naming vertices.\<close>

definition wellFormed :: "Model3D \<Rightarrow> bool" where
  "wellFormed m = (\<forall>f \<in> set (faces m). 3 \<le> length f \<and> validIndices m f)"

text \<open>The quad of the diagram in the documentation of \<open>getFaceNormal\<close>:
  0 bottom left, 1 top left, 2 top right, 3 bottom right.\<close>

definition quadVertices :: "Vector3D list" where
  "quadVertices =
     [\<lparr>vx = - 1, vy = - 1, vz = 0\<rparr>, \<lparr>vx = - 1, vy = 1, vz = 0\<rparr>,
      \<lparr>vx = 1, vy = 1, vz = 0\<rparr>, \<lparr>vx = 1, vy = - 1, vz = 0\<rparr>]"

definition quadModel :: Model3D where
  "quadModel = new_Model3D quadVertices [[0, 1, 2, 3]] (5 / 2)"

text \<open>Two triangles over the same vertices, with normals \<open>(1,1,-1)\<close> and \<open>(-1,-1,1)\<close>.\<close>

definition litModel :: Model3D where
  "litModel =
     new_Model3D
       [\<lparr>vx = 0, vy = 0, vz = 0\<rparr>, \<lparr>vx = 0, vy = 1, vz = 1\<rparr>, \<lparr>vx = 1, vy = 0, vz = 1\<rparr>]
       [[0, 1, 2], [0, 2, 1]] (5 / 2)"

text \<open>The renderer that \<open>new Renderer\<close> builds on an 800 by 600 canvas.\<close>

definition gameRenderer :: Renderer where
  "gameRenderer =
     \<lparr>camera = new_Camera 800 600, wireframeMode = False,
      lightDirection = \<lparr>vx = 1 / sqrt 3, vy = 1 / sqrt 3, vz = - (1 / sqrt 3)\<rparr>\<rparr>"

text \<open>Two triangles that face the camera, at depths 2 and 5 once translated by 1.\<close>

definition depthModel :: Model3D where
  "depthModel =
     new_Model3D
       [\<lparr>vx = 0, vy = 0, vz = 1\<rparr>, \<lparr>vx = 0, vy = 1, vz = 1\<rparr>, \<lparr>vx = 1, vy = 1, vz = 1\<rparr>,
        \<lparr>vx = 0, vy = 0, vz = 4\<rparr>, \<lparr>vx = 0, vy = 1, vz = 4\<rparr>, \<lparr>vx = 1, vy = 1, vz = 4\<rparr>]
       [[0, 1, 2], [3, 4, 5]] 1"

definition depthApp :: Application where
  "depthApp = \<lparr>model = depthModel, renderer = gameRenderer\<rparr>"

text \<open>The quad seen from the front and, with the winding reversed, from the back.\<close>

definition cullModel :: Model3D where
  "cullModel = new_Model3D quadVertices [[0, 1, 2, 3], [3, 2, 1, 0]] (5 / 2)"

definition cullApp :: "bool \<Rightarrow> Application" where
  "cullApp w = \<lparr>model = cullModel, renderer = gameRenderer\<lparr>wireframeMode := w\<rparr>\<rparr>"

section \<open>OBJ loader\<close>

text \<open>
  A string is the list of its UTF-16 code units, as integers; \<open>codeUnits\<close> gives
  the units of an ASCII literal.
\<close>

definition codeUnit :: "char \<Rightarrow> int" where
  "codeUnit c = of_char c"

definition codeUnits :: "string \<Rightarrow> int list" where
  "codeUnits s = map codeUnit s"

text \<open>
  What \<open>parseOBJ\<close> takes from its host, as parameters. A Number that is not \<open>NaN\<close> is
  a value of type \<open>'n\<close> where it is a coordinate and of type \<open>'i\<close> where it is a face
  index; \<open>None\<close> stands for \<open>NaN\<close>. The type \<open>'i\<close> is linearly ordered: Numbers
  other than \<open>NaN\<close>, by value, the two zeros being one value as they are for \<open>Set\<close>
  and \<open>Map\<close>.
  \<^item> \<open>whiteSpace\<close>: the code units that \<open>trim\<close> strips and the pattern \<open>\s\<close> matches;
  \<^item> \<open>parseFloat\<close>: the host's \<open>parseFloat\<close>;
  \<^item> \<open>parseInt\<close>: the host's \<open>parseInt\<close> with radix 10;
  \<^item> \<open>minusOne\<close>: \<open>n - 1\<close> in the host's arithmetic;
  \<^item> \<open>arrayIndex\<close>: the array index that a Number names as a property key, if any.
\<close>

record ('n, 'i) Host =
  whiteSpace :: "int \<Rightarrow> bool"
  parseFloat :: "int list \<Rightarrow> 'n option"
  parseInt :: "int list \<Rightarrow> 'i option"
  minusOne :: "'i \<Rightarrow> 'i"
  arrayIndex :: "'i \<Rightarrow> int option"

text \<open>\<open>text.split(/\r?\n/)\<close>, with the line read so far as the first argument.\<close>

fun splitLines :: "int list \<Rightarrow> int list \<Rightarrow> int list list" where
  "splitLines acc [] = [acc]"
| "splitLines acc [c] = (if c = 10 then [acc, []] else [acc @ [c]])"
| "splitLines acc (c # d # rest) =
     (if c = 10 then acc # splitLines [] (d # rest)
      else if c = 13 \<and> d = 10 then acc # splitLines [] rest
      else splitLines (acc @ [c]) (d # rest))"

definition trim :: "(int \<Rightarrow> bool) \<Rightarrow> int list \<Rightarrow> int list" where
  "trim ws s = rev (dropWhile ws (rev (dropWhile ws s)))"

text \<open>\<open>line.split(/\s+/)\<close>, with the part read so far as the second argument.\<close>

function splitSpaces :: "(int \<Rightarrow> bool) \<Rightarrow> int list \<Rightarrow> int list \<Rightarrow> int list list" where
  "splitSpaces ws acc [] = [acc]"
| "splitSpaces ws acc (c # rest) =
     (if ws c then acc # splitSpaces ws [] (dropWhile ws rest)
      else splitSpaces ws (acc @ [c]) rest)"
  by pat_completeness auto
termination
  by (relation "measure (\<lambda>(ws, acc, s). length s)")
    (auto simp: length_dropWhile_le less_Suc_eq_le)

definition startsWith :: "int list \<Rightarrow> int \<Rightarrow> bool" where
  "startsWith s c = (case s of [] \<Rightarrow> False | d # _ \<Rightarrow> d = c)"

text \<open>A missing part is \<open>undefined\<close>, which \<open>parseFloat\<close> reads as \<open>NaN\<close>.\<close>

definition parseFloatArg :: "(int list \<Rightarrow> 'n option) \<Rightarrow> int list option \<Rightarrow> 'n option" where
  "parseFloatArg pf a = (case a of None \<Rightarrow> None | Some s \<Rightarrow> pf s)"

record 'n ObjVertex =
  ox :: 'n
  oy :: 'n
  oz :: 'n

text \<open>\<open>.filter(n => !Number.isNaN(n))\<close>\<close>

fun dropNaN :: "'a option list \<Rightarrow> 'a list" where
  "dropNaN [] = []"
| "dropNaN (None # rest) = dropNaN rest"
| "dropNaN (Some n # rest) = n # dropNaN rest"

text \<open>The fan triangulation loop, for \<open>i\<close> from 1 while \<open>i < idxs.length - 1\<close>.\<close>

definition fan :: "'i list \<Rightarrow> 'i list list" where
  "fan idxs = map (\<lambda>i. [idxs ! 0, idxs ! i, idxs ! (i + 1)]) [1 ..< length idxs - 1]"

text \<open>The body of the loop over the lines, on the arrays \<open>vertices\<close> and \<open>faces\<close>.\<close>

definition objLine ::
  "('n, 'i) Host \<Rightarrow> int list \<Rightarrow> 'n ObjVertex list \<times> 'i list list
     \<Rightarrow> 'n ObjVertex list \<times> 'i list list" where
  "objLine h raw st =
     (let (vertices, faces) = st; line = trim (whiteSpace h) raw
      in if line = [] \<or> startsWith line (codeUnit CHR ''#'') then (vertices, faces)
         else
           (let parts = splitSpaces (whiteSpace h) [] line
            in if js_index parts 0 = Some (codeUnits ''v'') then
                 (case (parseFloatArg (parseFloat h) (js_index parts 1),
                        parseFloatArg (parseFloat h) (js_index parts 2),
                        parseFloatArg (parseFloat h) (js_index parts 3)) of
                    (Some x, Some y, Some z) \<Rightarrow> (vertices @ [\<lparr>ox = x, oy = y, oz = z\<rparr>], faces)
                  | _ \<Rightarrow> (vertices, faces))
               else if js_index parts 0 = Some (codeUnits ''f'') then
                 (let idxs = dropNaN (map (\<lambda>p.
                                 let first = takeWhile (\<lambda>c. c \<noteq> codeUnit CHR ''/'') p
                                 in map_option (minusOne h) (parseInt h first)) (drop 1 parts))
                  in if 3 \<le> length idxs then (vertices, faces @ fan idxs)
                     else (vertices, faces))
               else (vertices, faces)))"

text \<open>\<open>usedSet.add(idx)\<close>, the set kept in insertion order.\<close>

definition setAdd :: "'i \<Rightarrow> 'i list \<Rightarrow> 'i list" where
  "setAdd idx s = (if idx \<in> set s then s else s @ [idx])"

text \<open>\<open>vertices[oldIdx]\<close>, the index being a Number.\<close>

definition vertexAt :: "('i \<Rightarrow> int option) \<Rightarrow> 'a list \<Rightarrow> 'i \<Rightarrow> 'a option" where
  "vertexAt ai verts oldIdx = (case ai oldIdx of None \<Rightarrow> None | Some k \<Rightarrow> js_index verts k)"

text \<open>The body of the loop over \<open>newIdx\<close>, on the map \<open>oldToNew\<close> and the array
  \<open>cleanVerts\<close>; \<open>verts\<close> is the array \<open>vertices\<close>.\<close>

definition remapStep ::
  "('i \<Rightarrow> int option) \<Rightarrow> 'i list \<Rightarrow> 'a list \<Rightarrow> nat \<Rightarrow> ('i \<rightharpoonup> nat) \<times> 'a option list
     \<Rightarrow> ('i \<rightharpoonup> nat) \<times> 'a option list" where
  "remapStep ai usedIndices verts newIdx st =
     (let (oldToNew, cleanVerts) = st; oldIdx = usedIndices ! newIdx
      in (oldToNew(oldIdx \<mapsto> newIdx), cleanVerts @ [vertexAt ai verts oldIdx]))"

record 'n ObjMesh =
  obj_vertices :: "'n ObjVertex option list"
  obj_faces :: "nat option list list"

text \<open>
  \<open>parseOBJ\<close>. The used indices are distinct Numbers, so the comparator \<open>a - b\<close> sorts
  them by value. \<open>vertices[oldIdx]\<close> and \<open>oldToNew.get(oldIdx)\<close> may be \<open>undefined\<close>, so
  the returned arrays hold optional values.
\<close>

definition parseOBJ :: "('n, 'i :: linorder) Host \<Rightarrow> int list \<Rightarrow> 'n ObjMesh" where
  "parseOBJ h text =
     (let (vertices, faces) = fold (objLine h) (splitLines [] text) ([], []);
          usedSet = fold (\<lambda>face s. fold setAdd face s) faces [];
          usedIndices = sort usedSet;
          (oldToNew, cleanVerts) =
            fold (remapStep (arrayIndex h) usedIndices vertices)
              [0 ..< length usedIndices] (Map.empty, []);
          cleanFaces = map (\<lambda>f. map (\<lambda>oldIdx. oldToNew oldIdx) f) faces
      in \<lparr>obj_vertices = cleanVerts, obj_faces = cleanFaces\<rparr>)"

section \<open>A host for the examples\<close>

text \<open>
  The white space and line terminators of ECMAScript with the Unicode tables of today:
  U+0009 to U+000D, U+0020, U+00A0, U+1680, U+2000 to U+200A, U+2028, U+2029, U+202F,
  U+205F, U+3000 and U+FEFF.
\<close>

definition unicodeSpace :: "int \<Rightarrow> bool" where
  "unicodeSpace c =
     ((9 \<le> c \<and> c \<le> 13) \<or> c = 32 \<or> c = 160 \<or> c = 5760 \<or> (8192 \<le> c \<and> c \<le> 8202)
      \<or> c = 8232 \<or> c = 8233 \<or> c = 8239 \<or> c = 8287 \<or> c = 12288 \<or> c = 65279)"

definition isDigit :: "int \<Rightarrow> bool" where
  "isDigit c = (48 \<le> c \<and> c \<le> 57)"

definition digitValue :: "int \<Rightarrow> int" where
  "digitValue c = c - 48"

text \<open>
  Reading a decimal integer: leading white space, an optional sign, then the longest run
  of digits; \<open>None\<close> when there is no digit. On a string whose digits give a value below
  \<open>2^53\<close> this is what \<open>parseInt\<close> with radix 10 returns, and what \<open>parseFloat\<close> returns
  when the digits are not followed by a fraction or an exponent.
\<close>

definition decimalInt :: "int list \<Rightarrow> int option" where
  "decimalInt s =
     (let t = dropWhile unicodeSpace s;
          negative = startsWith t (codeUnit CHR ''-'');
          u = (if startsWith t (codeUnit CHR ''+'') \<or> startsWith t (codeUnit CHR ''-'')
               then drop 1 t else t);
          ds = takeWhile isDigit u
      in if ds = [] then None
         else Some ((if negative then - 1 else 1) * foldl (\<lambda>n d. 10 * n + digitValue d) 0 ds))"

text \<open>A host for texts of small decimal integers: on them \<open>n - 1\<close> is exact, and an
  integer Number names the array index of its value.\<close>

definition exampleHost :: "(int, int) Host" where
  "exampleHost =
     \<lparr>whiteSpace = unicodeSpace, parseFloat = decimalInt, parseInt = decimalInt,
      minusOne = (\<lambda>n. n - 1), arrayIndex = Some\<rparr>"

text \<open>A square given as one quad, with a comment line, a CR-LF line end, a no-break space
  and assorted slashes and spaces.\<close>

definition squareObj :: "int list" where
  "squareObj =
     codeUnits ''# square'' @ [13, 10] @ codeUnits ''v 0 0 0'' @ [10]
     @ codeUnits ''v 1 0 0'' @ [10] @ codeUnits ''v 1 1 0'' @ [10] @ codeUnits ''v 0 1 0''
     @ [10, 160] @ codeUnits '' f 1/1 2/2 3//3'' @ [160] @ codeUnits ''4 ''"

text \<open>A face line whose indices name no vertex, with one part that is not a number.\<close>

definition strayObj :: "int list" where
  "strayObj = codeUnits ''f 0 5 -3 x 9''"



section \<open>Rotation about the vertical axis\<close>

lemma rotateXZ_sel:
  "vx (rotateXZ v t) = vx v * cos t - vz v * sin t"
  "vy (rotateXZ v t) = vy v"
  "vz (rotateXZ v t) = vx v * sin t + vz v * cos t"
  by (simp_all add: rotateXZ_def Let_def)

lemma magnitude_rotateXZ: "magnitude (rotateXZ v t) = magnitude v"
proof -
  have "(vx v * cos t - vz v * sin t)\<^sup>2 + (vx v * sin t + vz v * cos t)\<^sup>2
        = ((vx v)\<^sup>2 + (vz v)\<^sup>2) * ((sin t)\<^sup>2 + (cos t)\<^sup>2)"
    by algebra
  then have "(vx v * cos t - vz v * sin t)\<^sup>2 + (vx v * sin t + vz v * cos t)\<^sup>2
        = (vx v)\<^sup>2 + (vz v)\<^sup>2"
    by simp
  then have "(vx v * cos t - vz v * sin t)\<^sup>2 + (vy v)\<^sup>2 + (vx v * sin t + vz v * cos t)\<^sup>2
        = (vx v)\<^sup>2 + (vy v)\<^sup>2 + (vz v)\<^sup>2"
    by simp
  then show ?thesis
    by (simp add: magnitude_def rotateXZ_sel)
qed

lemma rotateXZ_zero: "rotateXZ (v :: Vector3D) 0 = v"
  by (simp add: rotateXZ_def Let_def)

lemma rotateXZ_inverse: "rotateXZ (rotateXZ (v :: Vector3D) t) (- t) = v"
proof -
  have x: "(vx v * cos t - vz v * sin t) * cos t + (vx v * sin t + vz v * cos t) * sin t
           = vx v * ((sin t)\<^sup>2 + (cos t)\<^sup>2)"
    by algebra
  have z: "(vx v * sin t + vz v * cos t) * cos t - (vx v * cos t - vz v * sin t) * sin t
           = vz v * ((sin t)\<^sup>2 + (cos t)\<^sup>2)"
    by algebra
  have "rotateXZ (rotateXZ v t) (- t)
        = \<lparr>vx = (vx v * cos t - vz v * sin t) * cos t + (vx v * sin t + vz v * cos t) * sin t,
           vy = vy v,
           vz = (vx v * sin t + vz v * cos t) * cos t - (vx v * cos t - vz v * sin t) * sin t\<rparr>"
    by (simp add: rotateXZ_def Let_def)
  also have "\<dots> = \<lparr>vx = vx v, vy = vy v, vz = vz v\<rparr>"
    unfolding x z by simp
  finally show ?thesis by simp
qed

text \<open>
  Claim C7. \<open>rotateXZ v \<theta>\<close> is \<open>(x cos \<theta> - z sin \<theta>, y, x sin \<theta> + z cos \<theta>)\<close>; for every
  vector and angle it keeps the y-component and the magnitude, the rotation by 0 is the
  identity, and rotating by \<open>\<theta>\<close> and then by \<open>-\<theta>\<close> gives the vector back (exact reals).
\<close>

theorem rotateXZ_laws:
  fixes v :: Vector3D
  shows "rotateXZ v t =
           \<lparr>vx = vx v * cos t - vz v * sin t, vy = vy v, vz = vx v * sin t + vz v * cos t\<rparr>
       \<and> vy (rotateXZ v t) = vy v
       \<and> magnitude (rotateXZ v t) = magnitude v
       \<and> rotateXZ v 0 = v
       \<and> rotateXZ (rotateXZ v t) (- t) = v"
proof -
  have "rotateXZ v t =
           \<lparr>vx = vx v * cos t - vz v * sin t, vy = vy v, vz = vx v * sin t + vz v * cos t\<rparr>"
    by (simp add: rotateXZ_def Let_def)
  moreover have "vy (rotateXZ v t) = vy v"
    by (simp add: rotateXZ_sel)
  ultimately show ?thesis
    using magnitude_rotateXZ [of v t] rotateXZ_zero [of v] rotateXZ_inverse [of v t]
    by blast
qed

section \<open>Projection and screen mapping\<close>

text \<open>
  Claim C4. For every vector with \<open>v.z \<noteq> 0\<close>, \<open>project\<close> returns
  \<open>(v.x / v.z, v.y / v.z, v.z)\<close> with the third component unchanged; a point at
  camera-axis coordinate 1 keeps its x and y, at 2 they are halved, at 0.5 doubled.
\<close>

theorem project_perspective:
  "(vz v \<noteq> 0 \<longrightarrow>
      project cam v = Inr \<lparr>vx = vx v / vz v, vy = vy v / vz v, vz = vz v\<rparr>)
   \<and> project cam \<lparr>vx = a, vy = b, vz = 1\<rparr> = Inr \<lparr>vx = a, vy = b, vz = 1\<rparr>
   \<and> project cam \<lparr>vx = a, vy = b, vz = 2\<rparr> = Inr \<lparr>vx = a / 2, vy = b / 2, vz = 2\<rparr>
   \<and> project cam \<lparr>vx = a, vy = b, vz = 1 / 2\<rparr> = Inr \<lparr>vx = 2 * a, vy = 2 * b, vz = 1 / 2\<rparr>"
  by (simp add: project_def)

theorem project_perspective_witness:
  "vz \<lparr>vx = 3, vy = 4, vz = 8\<rparr> \<noteq> 0
   \<and> project (new_Camera 800 600) \<lparr>vx = 3, vy = 4, vz = 8\<rparr>
       = Inr \<lparr>vx = 3 / 8, vy = 1 / 2, vz = 8\<rparr>"
  using project_perspective [of "\<lparr>vx = 3, vy = 4, vz = 8\<rparr>" "new_Camera 800 600" 0 0]
  by simp

text \<open>
  Claim C5. \<open>toScreenCoords\<close> maps a projected point to
  \<open>((x + 1) / 2 * width, (1 - (y + 1) / 2) * height)\<close>: \<open>(0,0)\<close> goes to the centre,
  \<open>(-1,-1)\<close> to \<open>(0, height)\<close>, \<open>(1,1)\<close> to \<open>(width, 0)\<close>, and a point outside
  \<open>[-1, 1]\<close> is mapped by the same formula, not clamped.
\<close>

theorem toScreenCoords_mapping:
  "toScreenCoords cam p =
     \<lparr>sx = (vx p + 1) / 2 * canvasWidth cam, sy = (1 - (vy p + 1) / 2) * canvasHeight cam\<rparr>
   \<and> toScreenCoords cam \<lparr>vx = 0, vy = 0, vz = d\<rparr>
       = \<lparr>sx = canvasWidth cam / 2, sy = canvasHeight cam / 2\<rparr>
   \<and> toScreenCoords cam \<lparr>vx = - 1, vy = - 1, vz = d\<rparr> = \<lparr>sx = 0, sy = canvasHeight cam\<rparr>
   \<and> toScreenCoords cam \<lparr>vx = 1, vy = 1, vz = d\<rparr> = \<lparr>sx = canvasWidth cam, sy = 0\<rparr>
   \<and> toScreenCoords cam \<lparr>vx = 3, vy = - 3, vz = d\<rparr>
       = \<lparr>sx = 2 * canvasWidth cam, sy = 2 * canvasHeight cam\<rparr>"
  by (simp add: toScreenCoords_def)

section \<open>Face normal and visibility\<close>

lemma getFaceNormal_three:
  assumes "3 \<le> length f"
    and "js_index (vertices m) (f ! 0) = Some v0"
    and "js_index (vertices m) (f ! 1) = Some v1"
    and "js_index (vertices m) (f ! 2) = Some v2"
  shows "getFaceNormal m f = Inr (Some (cross (subtract v1 v0) (subtract v2 v0)))"
  using assms by (simp add: getFaceNormal_def Let_def)

lemma isFaceVisible_normal:
  assumes "getFaceNormal m f = Inr (Some n)"
  shows "isFaceVisible m f = Inr (vz (rotateXZ n (rotation m)) < 0)"
  using assms by (simp add: isFaceVisible_def Let_def)

lemma getFaceNormal_rotation [simp]:
  "getFaceNormal (m\<lparr>rotation := t\<rparr>) f = getFaceNormal m f"
  by (simp add: getFaceNormal_def)









section \<open>Average depth\<close>

lemma sumDepth_valid:
  "validIndices m f \<Longrightarrow>
   sumDepth m f acc
     = Inr (acc + (\<Sum>i\<leftarrow>f. vz (transformVertex m (vertices m ! nat i))))"
proof (induction f arbitrary: acc)
  case Nil
  show ?case by simp
next
  case (Cons i f)
  from Cons.prems have i: "js_index (vertices m) i = Some (vertices m ! nat i)"
    and rest: "validIndices m f"
    by (simp_all add: validIndices_def js_index_def)
  show ?case
    by (simp add: i Cons.IH [OF rest] Let_def transformVertex_def add.assoc)
qed

lemma vz_transformVertex:
  "vz (transformVertex m v) = vz (rotateXZ v (rotation m)) + vz (position m)"
  by (simp add: transformVertex_def translateZ_def Let_def)

lemma sum_list_shift:
  "(\<Sum>i\<leftarrow>f. g i + (c :: real)) = (\<Sum>i\<leftarrow>f. g i) + real (length f) * c"
  by (induction f) (simp_all add: algebra_simps)

text \<open>
  Claim C6. For a non-empty face whose indices name vertices, \<open>getAverageDepth\<close> is the
  mean of the z-components of the transformed vertices (rotated, then translated, as
  \<open>transformVertex\<close> does), which is \<open>position.z\<close> plus the mean of the rotated
  z-coordinates.
\<close>

theorem getAverageDepth_mean:
  assumes "f \<noteq> []" and "validIndices m f"
  shows "getAverageDepth m f
           = Inr ((\<Sum>i\<leftarrow>f. vz (transformVertex m (vertices m ! nat i))) / real (length f))
       \<and> getAverageDepth m f
           = Inr (vz (position m)
                  + (\<Sum>i\<leftarrow>f. vz (rotateXZ (vertices m ! nat i) (rotation m))) / real (length f))"
proof -
  have mean: "getAverageDepth m f
           = Inr ((\<Sum>i\<leftarrow>f. vz (transformVertex m (vertices m ! nat i))) / real (length f))"
    using assms by (simp add: getAverageDepth_def sumDepth_valid)
  have "(\<Sum>i\<leftarrow>f. vz (transformVertex m (vertices m ! nat i)))
        = (\<Sum>i\<leftarrow>f. vz (rotateXZ (vertices m ! nat i) (rotation m)))
          + real (length f) * vz (position m)"
    by (simp add: vz_transformVertex sum_list_shift)
  moreover have "real (length f) \<noteq> 0"
    using assms(1) by simp
  ultimately have "(\<Sum>i\<leftarrow>f. vz (transformVertex m (vertices m ! nat i))) / real (length f)
        = vz (position m)
          + (\<Sum>i\<leftarrow>f. vz (rotateXZ (vertices m ! nat i) (rotation m))) / real (length f)"
    by (simp add: field_simps)
  with mean show ?thesis by simp
qed

theorem getAverageDepth_mean_witness:
  "[0, 1, 2, 3] \<noteq> ([] :: int list) \<and> validIndices quadModel [0, 1, 2, 3]
   \<and> getAverageDepth quadModel [0, 1, 2, 3] = Inr (5 / 2)"
proof -
  have ne: "[0, 1, 2, 3] \<noteq> ([] :: int list)" by simp
  have v: "validIndices quadModel [0, 1, 2, 3]"
    by (simp add: validIndices_def quadModel_def new_Model3D_def quadVertices_def)
  have d: "getAverageDepth quadModel [0, 1, 2, 3] = Inr (5 / 2)"
    using getAverageDepth_mean [OF ne v]
    by (simp add: quadModel_def new_Model3D_def quadVertices_def vz_transformVertex
        rotateXZ_sel)
  show ?thesis
    using ne v d by simp
qed

section \<open>Flat shading\<close>

lemma magnitude_eq_0_iff:
  "magnitude v = 0 \<longleftrightarrow> vx v = 0 \<and> vy v = 0 \<and> vz v = 0"
proof -
  have "(vx v)\<^sup>2 + (vy v)\<^sup>2 + (vz v)\<^sup>2 = 0 \<longleftrightarrow> vx v = 0 \<and> vy v = 0 \<and> vz v = 0"
    by (simp add: add_nonneg_eq_0_iff)
  then show ?thesis
    by (simp add: magnitude_def)
qed

lemma magnitude_squared: "(magnitude v)\<^sup>2 = dot v v"
  by (simp add: magnitude_def dot_def power2_eq_square)

lemma normalize_nonzero:
  assumes "magnitude v \<noteq> 0"
  shows "normalize v
           = Inr \<lparr>vx = vx v / magnitude v, vy = vy v / magnitude v, vz = vz v / magnitude v\<rparr>"
  using assms by (simp add: normalize_def Let_def)

lemma dot_self_normalized:
  assumes "magnitude v \<noteq> 0" and "normalize v = Inr u"
  shows "dot u u = 1"
proof -
  have u: "u = \<lparr>vx = vx v / magnitude v, vy = vy v / magnitude v, vz = vz v / magnitude v\<rparr>"
    using assms normalize_nonzero [of v] by simp
  have "dot u u = dot v v / (magnitude v)\<^sup>2"
    unfolding u by (simp add: dot_def power2_eq_square add_divide_distrib)
  then show ?thesis
    using assms(1) by (simp add: magnitude_squared [symmetric])
qed

lemma finalBrightness_eq: "finalBrightness b = 0.3 + b * (1 - 0.3)"
  by (simp add: finalBrightness_def minBrightness_def)

lemma finalBrightness_floor: "0 \<le> b \<Longrightarrow> 0.3 \<le> finalBrightness b"
  by (simp add: finalBrightness_def minBrightness_def)

lemma dot_antiparallel:
  assumes c: "0 < c"
    and rn: "rn = \<lparr>vx = - c * vx l, vy = - c * vy l, vz = - c * vz l\<rparr>"
    and mag: "magnitude rn \<noteq> 0" and u: "normalize rn = Inr u"
  shows "dot u l \<le> 0"
proof -
  have pos: "0 < magnitude rn"
    using mag by (simp add: magnitude_def less_le)
  define M where "M = magnitude rn"
  have sel: "vx rn = - c * vx l" "vy rn = - c * vy l" "vz rn = - c * vz l"
    by (simp_all add: rn)
  have "u = \<lparr>vx = vx rn / M, vy = vy rn / M, vz = vz rn / M\<rparr>"
    using u mag normalize_nonzero [of rn] by (simp add: M_def)
  then have "dot u l = (vx rn * vx l + vy rn * vy l + vz rn * vz l) / M"
    by (simp add: dot_def add_divide_distrib)
  also have "\<dots> = - (c * dot l l) / M"
    unfolding sel by (simp add: dot_def algebra_simps)
  finally have "dot u l = - (c * dot l l) / magnitude rn"
    by (simp add: M_def)
  moreover have "0 \<le> dot l l"
    by (simp add: dot_def)
  ultimately show ?thesis
    using c pos by (simp add: divide_nonpos_pos)
qed

text \<open>
  Claim C3. For a face whose rotated normal is not the zero vector, the shading takes
  \<open>brightness = max 0 (dot u light)\<close> with \<open>u\<close> the normalized rotated normal,
  \<open>finalBrightness = 0.3 + brightness * (1 - 0.3)\<close> and the colour
  \<open>floor (255 * finalBrightness)\<close>, with which every non-empty outline is filled.
  \<open>finalBrightness\<close> is at least 0.3, it is 0.3 when the normal is anti-parallel to the
  light, and 1 when \<open>u\<close> is the light direction.
\<close>

theorem shading_brightness:
  assumes n: "getFaceNormal m f = Inr (Some n)"
    and nz: "rotateXZ n (rotation m) \<noteq> \<lparr>vx = 0, vy = 0, vz = 0\<rparr>"
  shows "\<exists>u b. normalize (rotateXZ n (rotation m)) = Inr u
           \<and> b = max 0 (dot u (lightDirection r))
           \<and> faceBrightness r m f = Inr b
           \<and> finalBrightness b = 0.3 + b * (1 - 0.3)
           \<and> drawShadedFace r m f pts
               = (if pts = [] then Inl TypeError
                  else Inr (Shaded (Inr \<lfloor>255 * finalBrightness b\<rfloor>) pts))
           \<and> 0.3 \<le> finalBrightness b
           \<and> ((\<exists>c>0. rotateXZ n (rotation m)
                        = \<lparr>vx = - c * vx (lightDirection r), vy = - c * vy (lightDirection r),
                           vz = - c * vz (lightDirection r)\<rparr>)
                 \<longrightarrow> b = 0 \<and> finalBrightness b = 0.3)
           \<and> (u = lightDirection r \<longrightarrow> b = 1 \<and> finalBrightness b = 1)"
proof -
  let ?rn = "rotateXZ n (rotation m)"
  let ?l = "lightDirection r"
  have mag: "magnitude ?rn \<noteq> 0"
    using nz by (simp add: magnitude_eq_0_iff) (metis Vector3D.surjective old.unit.exhaust)
  obtain u where u: "normalize ?rn = Inr u"
    using normalize_nonzero [OF mag] by blast
  define b where "b = max 0 (dot u ?l)"
  have fb: "faceBrightness r m f = Inr b"
    by (simp add: faceBrightness_def n u b_def Let_def)
  have draw: "drawShadedFace r m f pts
               = (if pts = [] then Inl TypeError
                  else Inr (Shaded (Inr \<lfloor>255 * finalBrightness b\<rfloor>) pts))"
    by (simp add: drawShadedFace_def fb colorValue_def)
  have b0: "0 \<le> b"
    by (simp add: b_def)
  have anti: "b = 0 \<and> finalBrightness b = 0.3"
    if "\<exists>c>0. ?rn = \<lparr>vx = - c * vx ?l, vy = - c * vy ?l, vz = - c * vz ?l\<rparr>"
  proof -
    from that obtain c where c: "0 < c"
      and rn: "?rn = \<lparr>vx = - c * vx ?l, vy = - c * vy ?l, vz = - c * vz ?l\<rparr>"
      by blast
    have "dot u ?l \<le> 0"
      using c rn mag u by (rule dot_antiparallel)
    then have "b = 0"
      by (simp add: b_def)
    then show ?thesis
      by (simp add: finalBrightness_eq)
  qed
  have par: "b = 1 \<and> finalBrightness b = 1" if "u = ?l"
  proof -
    have "dot u ?l = 1"
      using dot_self_normalized [OF mag u] that by simp
    then have "b = 1"
      by (simp add: b_def)
    then show ?thesis
      by (simp add: finalBrightness_eq)
  qed
  show ?thesis
    using u b_def fb draw finalBrightness_eq [of b] finalBrightness_floor [OF b0] anti par
    by blast
qed

lemma sqrt_three_quarters: "sqrt (3 / 4) = sqrt 3 / 2"
  by (simp add: real_sqrt_divide)

lemma new_Renderer_game: "new_Renderer 800 600 = Inr gameRenderer"
proof -
  have "magnitude \<lparr>vx = 1 / 2, vy = 1 / 2, vz = - (1 / 2)\<rparr> = sqrt (3 / 4)"
    by (simp add: magnitude_def power2_eq_square)
  then have m: "magnitude \<lparr>vx = 1 / 2, vy = 1 / 2, vz = - (1 / 2)\<rparr> = sqrt 3 / 2"
    by (simp only: sqrt_three_quarters)
  show ?thesis
    by (simp add: new_Renderer_def normalize_def m gameRenderer_def Let_def)
qed

lemma magnitude_111: "magnitude \<lparr>vx = 1, vy = 1, vz = - 1\<rparr> = sqrt 3"
  by (simp add: magnitude_def)

lemma magnitude_111': "magnitude \<lparr>vx = - 1, vy = - 1, vz = 1\<rparr> = sqrt 3"
  by (simp add: magnitude_def)

lemma screenPoints_litModel:
  "screenPoint gameRenderer litModel 0 = Inr \<lparr>sx = 400, sy = 300\<rparr>"
  "screenPoint gameRenderer litModel 1 = Inr \<lparr>sx = 400, sy = 1500 / 7\<rparr>"
  "screenPoint gameRenderer litModel 2 = Inr \<lparr>sx = 3600 / 7, sy = 300\<rparr>"
  by (simp_all add: screenPoint_def litModel_def new_Model3D_def js_index_def
      transformVertex_def rotateXZ_def translateZ_def project_def toScreenCoords_def
      gameRenderer_def new_Camera_def Let_def)

theorem shading_brightness_witness:
  "new_Renderer 800 600 = Inr gameRenderer
   \<and> getFaceNormal litModel [0, 1, 2] = Inr (Some \<lparr>vx = 1, vy = 1, vz = - 1\<rparr>)
   \<and> rotateXZ \<lparr>vx = 1, vy = 1, vz = - 1\<rparr> (rotation litModel) \<noteq> \<lparr>vx = 0, vy = 0, vz = 0\<rparr>
   \<and> normalize (rotateXZ \<lparr>vx = 1, vy = 1, vz = - 1\<rparr> (rotation litModel))
       = Inr (lightDirection gameRenderer)
   \<and> faceBrightness gameRenderer litModel [0, 1, 2] = Inr 1
   \<and> drawFace gameRenderer litModel [0, 1, 2]
       = Inr (Shaded (Inr 255)
           [Inr \<lparr>sx = 400, sy = 300\<rparr>, Inr \<lparr>sx = 400, sy = 1500 / 7\<rparr>,
            Inr \<lparr>sx = 3600 / 7, sy = 300\<rparr>])
   \<and> drawShadedFace gameRenderer litModel [0, 1, 2] [] = Inl TypeError
   \<and> getFaceNormal litModel [0, 2, 1] = Inr (Some \<lparr>vx = - 1, vy = - 1, vz = 1\<rparr>)
   \<and> rotateXZ \<lparr>vx = - 1, vy = - 1, vz = 1\<rparr> (rotation litModel) \<noteq> \<lparr>vx = 0, vy = 0, vz = 0\<rparr>
   \<and> faceBrightness gameRenderer litModel [0, 2, 1] = Inr 0
   \<and> drawFace gameRenderer litModel [0, 2, 1]
       = Inr (Shaded (Inr 76)
           [Inr \<lparr>sx = 400, sy = 300\<rparr>, Inr \<lparr>sx = 3600 / 7, sy = 300\<rparr>,
            Inr \<lparr>sx = 400, sy = 1500 / 7\<rparr>])"
proof -
  let ?l = "lightDirection gameRenderer"
  let ?p0 = "Inr \<lparr>sx = 400, sy = 300\<rparr> :: fault + ScreenPoint"
  let ?p1 = "Inr \<lparr>sx = 400, sy = 1500 / 7\<rparr> :: fault + ScreenPoint"
  let ?p2 = "Inr \<lparr>sx = 3600 / 7, sy = 300\<rparr> :: fault + ScreenPoint"
  have rot: "rotation litModel = 0"
    by (simp add: litModel_def new_Model3D_def)
  have r0: "rotateXZ (v :: Vector3D) (rotation litModel) = v" for v
    by (simp add: rot rotateXZ_def Let_def)
  have shadedMode: "\<not> wireframeMode gameRenderer"
    by (simp add: gameRenderer_def)
  have draw1: "drawFace gameRenderer litModel [0, 1, 2]
                = drawShadedFace gameRenderer litModel [0, 1, 2] [?p0, ?p1, ?p2]"
    by (simp add: drawFace_def screenPoints_litModel shadedMode Let_def)
  have draw2: "drawFace gameRenderer litModel [0, 2, 1]
                = drawShadedFace gameRenderer litModel [0, 2, 1] [?p0, ?p2, ?p1]"
    by (simp add: drawFace_def screenPoints_litModel shadedMode Let_def)
  \<comment> \<open>the face lit head-on\<close>
  have n1: "getFaceNormal litModel [0, 1, 2] = Inr (Some \<lparr>vx = 1, vy = 1, vz = - 1\<rparr>)"
    by (simp add: getFaceNormal_def litModel_def new_Model3D_def js_index_def cross_def
        subtract_def Let_def)
  have nz1: "rotateXZ \<lparr>vx = 1, vy = 1, vz = - 1\<rparr> (rotation litModel)
              \<noteq> \<lparr>vx = 0, vy = 0, vz = 0\<rparr>"
    by (simp add: r0)
  have u1: "normalize (rotateXZ \<lparr>vx = 1, vy = 1, vz = - 1\<rparr> (rotation litModel)) = Inr ?l"
    by (simp add: r0 normalize_def magnitude_111 gameRenderer_def Let_def)
  have f255: "\<lfloor>255 * finalBrightness 1\<rfloor> = 255"
    by (simp add: finalBrightness_def minBrightness_def)
  from shading_brightness [OF n1 nz1, of gameRenderer "[?p0, ?p1, ?p2]"] u1
  have lit: "faceBrightness gameRenderer litModel [0, 1, 2] = Inr 1
             \<and> drawShadedFace gameRenderer litModel [0, 1, 2] [?p0, ?p1, ?p2]
                 = Inr (Shaded (Inr 255) [?p0, ?p1, ?p2])"
    using f255 by auto
  from shading_brightness [OF n1 nz1, of gameRenderer "[]"]
  have empty: "drawShadedFace gameRenderer litModel [0, 1, 2] [] = Inl TypeError"
    by auto
  \<comment> \<open>the face turned away from the light\<close>
  have n2: "getFaceNormal litModel [0, 2, 1] = Inr (Some \<lparr>vx = - 1, vy = - 1, vz = 1\<rparr>)"
    by (simp add: getFaceNormal_def litModel_def new_Model3D_def js_index_def cross_def
        subtract_def Let_def)
  have nz2: "rotateXZ \<lparr>vx = - 1, vy = - 1, vz = 1\<rparr> (rotation litModel)
              \<noteq> \<lparr>vx = 0, vy = 0, vz = 0\<rparr>"
    by (simp add: r0)
  have anti: "\<exists>c>0. rotateXZ \<lparr>vx = - 1, vy = - 1, vz = 1\<rparr> (rotation litModel)
                = \<lparr>vx = - c * vx ?l, vy = - c * vy ?l, vz = - c * vz ?l\<rparr>"
    by (rule exI [of _ "sqrt 3"]) (simp add: r0 gameRenderer_def)
  have f76: "\<lfloor>255 * finalBrightness 0\<rfloor> = 76"
    by (simp add: finalBrightness_def minBrightness_def)
  from shading_brightness [OF n2 nz2, of gameRenderer "[?p0, ?p2, ?p1]"] anti
  have dark: "faceBrightness gameRenderer litModel [0, 2, 1] = Inr 0
             \<and> drawShadedFace gameRenderer litModel [0, 2, 1] [?p0, ?p2, ?p1]
                 = Inr (Shaded (Inr 76) [?p0, ?p2, ?p1])"
    using f76 by auto
  show ?thesis
    using new_Renderer_game n1 nz1 u1 lit empty n2 nz2 dark by (simp add: draw1 draw2)
qed

section \<open>Frame pipeline\<close>

lemma js_index_valid:
  "0 \<le> i \<Longrightarrow> i < int (length xs) \<Longrightarrow> js_index xs i = Some (xs ! nat i)"
  by (simp add: js_index_def)

lemma validIndices_nth:
  "validIndices m f \<Longrightarrow> k < length f \<Longrightarrow>
   js_index (vertices m) (f ! k) = Some (vertices m ! nat (f ! k))"
  by (simp add: validIndices_def js_index_def)

lemma getAverageDepth_valid:
  assumes "f \<noteq> []" and "validIndices m f"
  shows "\<exists>d. getAverageDepth m f = Inr d"
  using assms by (simp add: getAverageDepth_def sumDepth_valid)

lemma getFaceNormal_wf:
  assumes "3 \<le> length f" and "validIndices m f"
  shows "\<exists>n. getFaceNormal m f = Inr (Some n)"
proof -
  have len: "0 < length f" "1 < length f" "2 < length f"
    using assms(1) by auto
  note validIndices_nth [OF assms(2) len(1)] validIndices_nth [OF assms(2) len(2)]
    validIndices_nth [OF assms(2) len(3)]
  with assms(1) show ?thesis
    using getFaceNormal_three by blast
qed

lemma isFaceVisible_wf:
  assumes "3 \<le> length f" and "validIndices m f"
  shows "\<exists>b. isFaceVisible m f = Inr b"
  using getFaceNormal_wf [OF assms] isFaceVisible_normal by blast

lemma culled_wf:
  assumes "3 \<le> length f" and "validIndices m f"
  shows "culled r m f = Inr (\<not> (wireframeMode r \<or> isFaceVisible m f = Inr True))"
  using isFaceVisible_wf [OF assms] by (auto simp: culled_def)

lemma screenPoint_valid:
  assumes "0 \<le> i" and "i < int (length (vertices m))"
  shows "screenPoint r m i \<noteq> Inl TypeError"
  using assms by (simp add: screenPoint_def js_index_def project_def Let_def)

lemma faceBrightness_wf:
  assumes "3 \<le> length f" and "validIndices m f"
  shows "faceBrightness r m f \<noteq> Inl TypeError"
proof -
  obtain n where "getFaceNormal m f = Inr (Some n)"
    using getFaceNormal_wf [OF assms] by blast
  then show ?thesis
    by (simp add: faceBrightness_def normalize_def Let_def)
qed

lemma drawFace_wf:
  assumes "3 \<le> length f" and "validIndices m f"
  shows "\<exists>cmd. drawFace r m f = Inr cmd"
proof -
  let ?pts = "map (screenPoint r m) f"
  have ok: "screenPoint r m i \<noteq> Inl TypeError" if "i \<in> set f" for i
    using that assms(2) screenPoint_valid [of i m r] by (simp add: validIndices_def)
  have pts: "Inl TypeError \<notin> set ?pts"
  proof
    assume "Inl TypeError \<in> set ?pts"
    then obtain i where "i \<in> set f" and "screenPoint r m i = Inl TypeError"
      by auto
    then show False
      using ok by blast
  qed
  have ne: "?pts \<noteq> []"
    using assms(1) by auto
  have wire: "\<exists>cmd. drawWireframe ?pts = Inr cmd"
    using ne by (simp add: drawWireframe_def)
  have shaded: "\<exists>cmd. drawShadedFace r m f ?pts = Inr cmd"
    using faceBrightness_wf [OF assms, of r] ne
    by (cases "faceBrightness r m f") (auto simp: drawShadedFace_def split: fault.splits)
  show ?thesis
    using pts wire shaded by (simp add: drawFace_def Let_def)
qed

lemma drawLoop_wf:
  assumes "\<forall>f \<in> set fs. 3 \<le> length f \<and> validIndices m f"
  shows "thrown (drawLoop r m fs) = None
       \<and> map fst (drawn (drawLoop r m fs))
           = filter (\<lambda>f. wireframeMode r \<or> isFaceVisible m f = Inr True) fs"
  using assms
proof (induction fs)
  case Nil
  show ?case by simp
next
  case (Cons f fs)
  then have f: "3 \<le> length f" "validIndices m f"
    and IH: "thrown (drawLoop r m fs) = None"
      "map fst (drawn (drawLoop r m fs))
         = filter (\<lambda>f. wireframeMode r \<or> isFaceVisible m f = Inr True) fs"
    by simp_all
  obtain cmd where cmd: "drawFace r m f = Inr cmd"
    using drawFace_wf [OF f] by blast
  show ?case
    by (simp add: culled_wf [OF f] cmd IH Let_def)
qed

lemma facesWithDepth_wf:
  assumes "\<forall>f \<in> set fs. f \<noteq> [] \<and> validIndices m f"
  shows "\<exists>ps. facesWithDepth m fs = Inr ps \<and> map fst ps = fs
            \<and> (\<forall>p \<in> set ps. getAverageDepth m (fst p) = Inr (snd p))"
  using assms
proof (induction fs)
  case Nil
  show ?case by simp
next
  case (Cons f fs)
  then obtain ps where ps: "facesWithDepth m fs = Inr ps" "map fst ps = fs"
    "\<forall>p \<in> set ps. getAverageDepth m (fst p) = Inr (snd p)"
    by auto
  from Cons.prems obtain d where d: "getAverageDepth m f = Inr d"
    using getAverageDepth_valid [of f m] by auto
  show ?case
    using ps d by simp
qed

lemma wellFormed_faces:
  assumes "wellFormed m"
  shows "\<forall>f \<in> set (faces m). 3 \<le> length f \<and> validIndices m f"
    and "\<forall>f \<in> set (faces m). f \<noteq> [] \<and> validIndices m f"
  using assms by (auto simp: wellFormed_def)

lemma set_sortByDepth: "set (sortByDepth ps) = set ps"
  by (simp add: sortByDepth_def)

lemma mset_sortByDepth: "mset (sortByDepth ps) = mset ps"
  by (simp add: sortByDepth_def)

lemma sorted_sortByDepth: "sorted_wrt (\<lambda>a b. b \<le> a) (map snd (sortByDepth ps))"
proof -
  have "sorted (map (\<lambda>p. - snd p) (sortByDepth ps))"
    by (simp add: sortByDepth_def)
  then show ?thesis
    by (simp add: sorted_wrt_map)
qed

lemma render_wf:
  assumes "wellFormed (model app)"
  shows "\<exists>ps. facesWithDepth (model app) (faces (model app)) = Inr ps
            \<and> map fst ps = faces (model app)
            \<and> (\<forall>p \<in> set ps. getAverageDepth (model app) (fst p) = Inr (snd p))
            \<and> thrown (render app) = None
            \<and> map fst (drawn (render app))
                = filter (\<lambda>f. wireframeMode (renderer app)
                               \<or> isFaceVisible (model app) f = Inr True)
                    (map fst (sortByDepth ps))"
proof -
  let ?m = "model app"
  obtain ps where ps: "facesWithDepth ?m (faces ?m) = Inr ps" "map fst ps = faces ?m"
    "\<forall>p \<in> set ps. getAverageDepth ?m (fst p) = Inr (snd p)"
    using facesWithDepth_wf [OF wellFormed_faces(2) [OF assms]] by blast
  have "set (map fst (sortByDepth ps)) = set (map fst ps)"
    by (simp add: set_sortByDepth)
  then have "set (map fst (sortByDepth ps)) = set (faces ?m)"
    by (simp only: ps(2))
  then have "\<forall>f \<in> set (map fst (sortByDepth ps)). 3 \<le> length f \<and> validIndices ?m f"
    using wellFormed_faces(1) [OF assms] by simp
  from drawLoop_wf [OF this, of "renderer app"] ps show ?thesis
    by (simp add: render_def)
qed

lemma descending_positions:
  assumes "sorted_wrt (\<lambda>a b. b \<le> a) (ds :: real list)"
    and "i < length ds" and "j < length ds" and "ds ! j < ds ! i"
  shows "i < j"
proof (rule ccontr)
  assume "\<not> i < j"
  then consider "i = j" | "j < i" by linarith
  then show False
  proof cases
    case 1
    with assms(4) show False by simp
  next
    case 2
    then have "ds ! i \<le> ds ! j"
      using assms(1,2) sorted_wrt_nth_less by blast
    with assms(4) show False by simp
  qed
qed

text \<open>
  Claim C2. On a well-formed mesh a frame pairs every face with its average depth,
  orders the pairs by descending depth, and draws in that order: the depths of the faces
  drawn are descending, so a face with a larger depth is drawn before one with a smaller
  depth.
\<close>

theorem render_depth_order:
  assumes "wellFormed (model app)"
  shows "\<exists>ps ds. facesWithDepth (model app) (faces (model app)) = Inr ps
           \<and> map fst ps = faces (model app)
           \<and> (\<forall>p \<in> set ps. getAverageDepth (model app) (fst p) = Inr (snd p))
           \<and> mset (sortByDepth ps) = mset ps
           \<and> sorted_wrt (\<lambda>a b. b \<le> a) (map snd (sortByDepth ps))
           \<and> thrown (render app) = None
           \<and> map fst (drawn (render app))
               = filter (\<lambda>f. wireframeMode (renderer app)
                              \<or> isFaceVisible (model app) f = Inr True)
                   (map fst (sortByDepth ps))
           \<and> map (getAverageDepth (model app)) (map fst (drawn (render app))) = map Inr ds
           \<and> sorted_wrt (\<lambda>a b. b \<le> a) ds
           \<and> (\<forall>i < length ds. \<forall>j < length ds. ds ! j < ds ! i \<longrightarrow> i < j)"
proof -
  let ?m = "model app"
  let ?keep = "\<lambda>f. wireframeMode (renderer app) \<or> isFaceVisible ?m f = Inr True"
  obtain ps where ps: "facesWithDepth ?m (faces ?m) = Inr ps" "map fst ps = faces ?m"
    "\<forall>p \<in> set ps. getAverageDepth ?m (fst p) = Inr (snd p)"
    and thr: "thrown (render app) = None"
    and dr: "map fst (drawn (render app)) = filter ?keep (map fst (sortByDepth ps))"
    using render_wf [OF assms] by blast
  define kept where "kept = filter (\<lambda>p. ?keep (fst p)) (sortByDepth ps)"
  define ds where "ds = map snd kept"
  have dr': "map fst (drawn (render app)) = map fst kept"
    by (simp add: dr kept_def filter_map comp_def)
  have "set kept \<subseteq> set ps"
    by (auto simp: kept_def set_sortByDepth)
  then have "map (\<lambda>p. getAverageDepth ?m (fst p)) kept = map (\<lambda>p. Inr (snd p)) kept"
    using ps(3) by (intro map_cong) auto
  then have depths: "map (getAverageDepth ?m) (map fst (drawn (render app))) = map Inr ds"
    by (simp add: dr' ds_def comp_def)
  have "sorted_wrt (\<lambda>p q. snd q \<le> snd p) (sortByDepth ps)"
    using sorted_sortByDepth [of ps] by (simp add: sorted_wrt_map)
  then have "sorted_wrt (\<lambda>p q. snd q \<le> snd p) kept"
    unfolding kept_def by (rule sorted_wrt_filter)
  then have desc: "sorted_wrt (\<lambda>a b. b \<le> a) ds"
    by (simp add: ds_def sorted_wrt_map)
  have pos: "\<forall>i < length ds. \<forall>j < length ds. ds ! j < ds ! i \<longrightarrow> i < j"
    using descending_positions [OF desc] by blast
  show ?thesis
    using ps thr dr depths desc pos mset_sortByDepth [of ps] sorted_sortByDepth [of ps]
    by blast
qed

text \<open>
  Claim C8. On a well-formed mesh, in wireframe mode no face is culled and every face of
  the depth-sorted list is drawn, back faces included; with wireframe mode off the faces
  drawn are exactly those of the sorted list for which \<open>isFaceVisible\<close> returns true.
\<close>

theorem render_culling:
  assumes "wellFormed (model app)"
  shows "\<exists>ps. facesWithDepth (model app) (faces (model app)) = Inr ps
           \<and> thrown (render app) = None
           \<and> (wireframeMode (renderer app) \<longrightarrow>
                (\<forall>f. culled (renderer app) (model app) f = Inr False)
              \<and> map fst (drawn (render app)) = map fst (sortByDepth ps))
           \<and> (\<not> wireframeMode (renderer app) \<longrightarrow>
                map fst (drawn (render app))
                  = filter (\<lambda>f. isFaceVisible (model app) f = Inr True)
                      (map fst (sortByDepth ps)))"
proof -
  obtain ps where ps: "facesWithDepth (model app) (faces (model app)) = Inr ps"
    and thr: "thrown (render app) = None"
    and dr: "map fst (drawn (render app))
              = filter (\<lambda>f. wireframeMode (renderer app)
                             \<or> isFaceVisible (model app) f = Inr True)
                  (map fst (sortByDepth ps))"
    using render_wf [OF assms] by blast
  have "(\<forall>f. culled (renderer app) (model app) f = Inr False)
        \<and> map fst (drawn (render app)) = map fst (sortByDepth ps)"
    if "wireframeMode (renderer app)"
    using that dr by (simp add: culled_def)
  moreover have "map fst (drawn (render app))
                  = filter (\<lambda>f. isFaceVisible (model app) f = Inr True)
                      (map fst (sortByDepth ps))"
    if "\<not> wireframeMode (renderer app)"
    using that dr by simp
  ultimately show ?thesis
    using ps thr by blast
qed

text \<open>
  Claim C9. On a face with fewer than three indices \<open>getFaceNormal\<close> returns \<open>null\<close>
  without throwing and \<open>isFaceVisible\<close> returns true; the frame loop therefore never
  skips such a face and hands it to \<open>drawFace\<close>.
\<close>

theorem short_face_not_culled:
  assumes "length f < 3"
  shows "getFaceNormal m f = Inr None
       \<and> isFaceVisible m f = Inr True
       \<and> culled r m f = Inr False
       \<and> drawLoop r m (f # rest)
           = (case drawFace r m f of
                Inl e \<Rightarrow> \<lparr>drawn = [], thrown = Some e\<rparr>
              | Inr cmd \<Rightarrow>
                  \<lparr>drawn = (f, cmd) # drawn (drawLoop r m rest),
                   thrown = thrown (drawLoop r m rest)\<rparr>)"
proof -
  have n: "getFaceNormal m f = Inr None"
    using assms by (simp add: getFaceNormal_def)
  have v: "isFaceVisible m f = Inr True"
    by (simp add: isFaceVisible_def n)
  have c: "culled r m f = Inr False"
    by (simp add: culled_def v)
  show ?thesis
    by (simp add: n v c Let_def split: sum.splits)
qed

lemmas mesh_eval =
  new_Model3D_def getAverageDepth_def js_index_def rotateXZ_def translateZ_def Let_def
  getFaceNormal_def isFaceVisible_def cross_def subtract_def quadVertices_def

lemma wellFormed_depthModel: "wellFormed depthModel"
  by (simp add: wellFormed_def validIndices_def depthModel_def new_Model3D_def)

lemma facesWithDepth_depthModel:
  "facesWithDepth depthModel (faces depthModel) = Inr [([0, 1, 2], 2), ([3, 4, 5], 5)]"
  by (simp add: depthModel_def mesh_eval)

lemma isFaceVisible_depthModel:
  "isFaceVisible depthModel [0, 1, 2] = Inr True"
  "isFaceVisible depthModel [3, 4, 5] = Inr True"
  by (simp_all add: depthModel_def mesh_eval)

theorem render_depth_order_witness:
  "wellFormed (model depthApp)
   \<and> facesWithDepth (model depthApp) (faces (model depthApp))
       = Inr [([0, 1, 2], 2), ([3, 4, 5], 5)]
   \<and> sortByDepth [([0, 1, 2], 2), ([3, 4, 5], 5)] = [([3, 4, 5], 5), ([0, 1, 2], 2)]
   \<and> map fst (drawn (render depthApp)) = [[3, 4, 5], [0, 1, 2]]
   \<and> thrown (render depthApp) = None"
proof -
  have m: "model depthApp = depthModel"
    by (simp add: depthApp_def)
  have wf: "wellFormed (model depthApp)"
    by (simp add: m wellFormed_depthModel)
  have srt: "sortByDepth [([0, 1, 2], 2), ([3, 4, 5], 5)]
              = [([3 :: int, 4, 5], 5 :: real), ([0, 1, 2], 2)]"
    by (simp add: sortByDepth_def)
  from render_depth_order [OF wf] obtain ps where
    ps: "facesWithDepth (model depthApp) (faces (model depthApp)) = Inr ps"
    and thr: "thrown (render depthApp) = None"
    and dr: "map fst (drawn (render depthApp))
              = filter (\<lambda>f. wireframeMode (renderer depthApp)
                             \<or> isFaceVisible (model depthApp) f = Inr True)
                  (map fst (sortByDepth ps))"
    by blast
  have ps_eq: "ps = [([0, 1, 2], 2), ([3, 4, 5], 5)]"
    using ps by (simp add: m facesWithDepth_depthModel)
  have "map fst (drawn (render depthApp)) = [[3, 4, 5], [0, 1, 2]]"
    by (simp add: dr ps_eq srt m isFaceVisible_depthModel)
  then show ?thesis
    using wf thr srt by (simp add: m facesWithDepth_depthModel)
qed

lemma wellFormed_cullModel: "wellFormed cullModel"
  by (simp add: wellFormed_def validIndices_def cullModel_def new_Model3D_def
      quadVertices_def)

lemma facesWithDepth_cullModel:
  "facesWithDepth cullModel (faces cullModel)
     = Inr [([0, 1, 2, 3], 5 / 2), ([3, 2, 1, 0], 5 / 2)]"
  by (simp add: cullModel_def mesh_eval)

lemma isFaceVisible_cullModel:
  "isFaceVisible cullModel [0, 1, 2, 3] = Inr True"
  "isFaceVisible cullModel [3, 2, 1, 0] = Inr False"
  by (simp_all add: cullModel_def mesh_eval)

theorem render_culling_witness:
  "wellFormed (model (cullApp True)) \<and> wireframeMode (renderer (cullApp True))
   \<and> wellFormed (model (cullApp False)) \<and> \<not> wireframeMode (renderer (cullApp False))
   \<and> isFaceVisible cullModel [0, 1, 2, 3] = Inr True
   \<and> isFaceVisible cullModel [3, 2, 1, 0] = Inr False
   \<and> map fst (drawn (render (cullApp True))) = [[0, 1, 2, 3], [3, 2, 1, 0]]
   \<and> map fst (drawn (render (cullApp False))) = [[0, 1, 2, 3]]"
proof -
  have m: "model (cullApp w) = cullModel" for w
    by (simp add: cullApp_def)
  have w: "wireframeMode (renderer (cullApp w)) = w" for w
    by (simp add: cullApp_def)
  have wf: "wellFormed (model (cullApp w))" for w
    by (simp add: m wellFormed_cullModel)
  have srt: "map fst (sortByDepth [([0, 1, 2, 3], 5 / 2), ([3, 2, 1, 0], 5 / 2)])
              = [[0 :: int, 1, 2, 3], [3, 2, 1, 0]]"
    by (simp add: sortByDepth_def)
  have wire: "map fst (drawn (render (cullApp True))) = [[0, 1, 2, 3], [3, 2, 1, 0]]"
    using render_culling [OF wf [of True]]
    by (auto simp: m w facesWithDepth_cullModel srt)
  have shaded: "map fst (drawn (render (cullApp False))) = [[0, 1, 2, 3]]"
    using render_culling [OF wf [of False]]
    by (auto simp: m w facesWithDepth_cullModel srt isFaceVisible_cullModel)
  show ?thesis
    using wf w wire shaded isFaceVisible_cullModel by simp
qed

theorem short_face_not_culled_witness:
  "length [0, 1 :: int] < 3
   \<and> getFaceNormal quadModel [0, 1] = Inr None
   \<and> isFaceVisible quadModel [0, 1] = Inr True
   \<and> culled gameRenderer quadModel [0, 1] = Inr False
   \<and> drawFace gameRenderer quadModel [0, 1] = Inl TypeError
   \<and> drawLoop gameRenderer quadModel [[0, 1]] = \<lparr>drawn = [], thrown = Some TypeError\<rparr>"
proof -
  have len: "length [0, 1 :: int] < 3" by simp
  note c9 = short_face_not_culled [OF len, of quadModel gameRenderer "[]"]
  have pts: "Inl TypeError \<notin> set (map (screenPoint gameRenderer quadModel) [0, 1])"
    using screenPoint_valid [of 0 quadModel gameRenderer]
      screenPoint_valid [of 1 quadModel gameRenderer]
    by (simp add: quadModel_def new_Model3D_def quadVertices_def)
  have "faceBrightness gameRenderer quadModel [0, 1] = Inl TypeError"
    using c9 by (simp add: faceBrightness_def)
  then have d: "drawFace gameRenderer quadModel [0, 1] = Inl TypeError"
    using pts by (simp add: drawFace_def drawShadedFace_def gameRenderer_def Let_def)
  show ?thesis
    using c9 len d by simp
qed

section \<open>OBJ loader: triangles and index range\<close>

lemma fan_length: "f \<in> set (fan idxs) \<Longrightarrow> length f = 3"
  by (auto simp: fan_def)

lemma objLine_triangles:
  assumes "\<forall>f \<in> set (snd st). length f = 3"
  shows "\<forall>f \<in> set (snd (objLine h raw st)). length f = 3"
proof -
  obtain vs fs where st: "st = (vs, fs)"
    by (cases st)
  show ?thesis
    using assms unfolding st objLine_def
    by (auto simp: Let_def fan_length split: option.splits)
qed

lemma fold_objLine_triangles:
  assumes "\<forall>f \<in> set (snd st). length f = 3"
  shows "\<forall>f \<in> set (snd (fold (objLine h) ls st)). length f = 3"
  using assms
proof (induction ls arbitrary: st)
  case Nil
  then show ?case by simp
next
  case (Cons l ls)
  show ?case
    using Cons.IH [OF objLine_triangles [OF Cons.prems, of h l]] by simp
qed

lemma set_setAdd: "set (setAdd idx s) = insert idx (set s)"
  by (auto simp: setAdd_def)

lemma set_fold_setAdd: "set (fold setAdd face s) = set face \<union> set s"
  by (induction face arbitrary: s) (auto simp: set_setAdd)

lemma set_usedSet:
  "set (fold (\<lambda>face s. fold setAdd face s) fs s) = \<Union> (set ` set fs) \<union> set s"
  by (induction fs arbitrary: s) (auto simp: set_fold_setAdd)

lemma cleanLoop_inv:
  assumes "j \<le> length us"
  shows "case fold (remapStep ai us vs) [0 ..< j] (Map.empty, [])
         of (m, cv) \<Rightarrow> length cv = j \<and> (\<forall>k < j. \<exists>v < j. m (us ! k) = Some v)"
  using assms
proof (induction j)
  case 0
  show ?case by simp
next
  case (Suc j)
  obtain m cv where mc: "fold (remapStep ai us vs) [0 ..< j] (Map.empty, []) = (m, cv)"
    by (cases "fold (remapStep ai us vs) [0 ..< j] (Map.empty, [])")
  have "j \<le> length us"
    using Suc.prems by simp
  from Suc.IH [OF this] have len: "length cv = j"
    and old: "\<forall>k < j. \<exists>v < j. m (us ! k) = Some v"
    by (simp_all add: mc)
  have new: "\<exists>v < Suc j. (m(us ! j \<mapsto> j)) (us ! k) = Some v" if "k < Suc j" for k
  proof (cases "us ! k = us ! j")
    case True
    then show ?thesis by auto
  next
    case False
    then have "k < j"
      using that by (cases "k = j") auto
    then obtain v where "v < j" "m (us ! k) = Some v"
      using old by blast
    with False show ?thesis
      by auto
  qed
  have "fold (remapStep ai us vs) [0 ..< Suc j] (Map.empty, [])
          = (m(us ! j \<mapsto> j), cv @ [vertexAt ai vs (us ! j)])"
    by (simp add: mc remapStep_def Let_def)
  then show ?case
    using len new by simp
qed

text \<open>
  Claim C10. For every input text, whatever the host's white space, \<open>parseFloat\<close>,
  \<open>parseInt\<close> and arithmetic, every face of the mesh that \<open>parseOBJ\<close> returns has exactly
  three indices, and each of them is a natural number below the length of the returned
  vertex array.
\<close>

theorem parseOBJ_triangles_in_range:
  "\<forall>f \<in> set (obj_faces (parseOBJ h text)).
     length f = 3
     \<and> (\<forall>i \<in> set f. \<exists>n. i = Some n \<and> n < length (obj_vertices (parseOBJ h text)))"
proof -
  obtain vs fs where
    vf: "fold (objLine h) (splitLines [] text) ([], []) = (vs, fs)"
    by (cases "fold (objLine h) (splitLines [] text) ([], [])")
  define us where "us = sort (fold (\<lambda>face s. fold setAdd face s) fs [])"
  obtain m cv
    where mc: "fold (remapStep (arrayIndex h) us vs) [0 ..< length us] (Map.empty, []) = (m, cv)"
    by (cases "fold (remapStep (arrayIndex h) us vs) [0 ..< length us] (Map.empty, [])")
  have res: "parseOBJ h text = \<lparr>obj_vertices = cv, obj_faces = map (map m) fs\<rparr>"
    unfolding parseOBJ_def vf Let_def prod.case us_def [symmetric] mc by simp
  have tri: "\<forall>f \<in> set fs. length f = 3"
    using fold_objLine_triangles [of "([], [])" h "splitLines [] text"] by (simp add: vf)
  have inv: "length cv = length us" "\<forall>k < length us. \<exists>v < length us. m (us ! k) = Some v"
    using cleanLoop_inv [of "length us" us "arrayIndex h" vs] by (simp_all add: mc)
  have used: "set us = \<Union> (set ` set fs)"
    by (simp add: us_def set_usedSet)
  have remap: "\<exists>n. m i = Some n \<and> n < length cv" if "f \<in> set fs" "i \<in> set f" for f i
  proof -
    have "i \<in> set us"
      using that used by blast
    then obtain k where "k < length us" "us ! k = i"
      by (auto simp: in_set_conv_nth)
    then show ?thesis
      using inv by auto
  qed
  show ?thesis
    unfolding res using tri remap by auto
qed

theorem parseOBJ_triangles_in_range_witness:
  "obj_faces (parseOBJ exampleHost squareObj)
     = [[Some 0, Some 1, Some 2], [Some 0, Some 2, Some 3]]
   \<and> 3 < length (obj_vertices (parseOBJ exampleHost squareObj))
   \<and> length (obj_vertices (parseOBJ exampleHost squareObj)) = 4
   \<and> obj_faces (parseOBJ exampleHost strayObj)
       = [[Some 1, Some 2, Some 0], [Some 1, Some 0, Some 3]]
   \<and> obj_vertices (parseOBJ exampleHost strayObj) = [None, None, None, None]"
proof -
  have fs: "obj_faces (parseOBJ exampleHost squareObj)
             = [[Some 0, Some 1, Some 2], [Some 0, Some 2, Some 3]]"
    by code_simp
  have below: "3 < length (obj_vertices (parseOBJ exampleHost squareObj))"
    using parseOBJ_triangles_in_range [of exampleHost squareObj] unfolding fs by simp
  have len: "length (obj_vertices (parseOBJ exampleHost squareObj)) = 4"
    by code_simp
  have fs': "obj_faces (parseOBJ exampleHost strayObj)
              = [[Some 1, Some 2, Some 0], [Some 1, Some 0, Some 3]]"
    by code_simp
  have vs': "obj_vertices (parseOBJ exampleHost strayObj) = [None, None, None, None]"
    by code_simp
  show ?thesis
    using fs below len fs' vs' by simp
qed

end
